theory Spec2Isabelle
  imports Complex_Main "HOL-Library.Multiset"
begin

section \<open>Netblast: the multi-server network benchmark of cmd/root.go\<close>

text \<open>
  The development embeds the parts of \<^verbatim>\<open>runNetblastTests\<close> and
  \<^verbatim>\<open>calculateDistance\<close> (cmd/root.go) that the specification talks about.
  Go's \<^verbatim>\<open>float64\<close> values are modelled by exact reals: the values that occur
  (parsed numbers, throughput figures, scores) are finite, and the properties below depend
  on comparisons and on the shape of the formulas only.
\<close>

subsection \<open>Data model\<close>

text \<open>The anonymous struct of \<^verbatim>\<open>serversWithDistance\<close>.\<close>

record server =
  Host :: string
  Port :: int
  City :: string
  Country :: string
  Distance :: int
  Lat :: real
  Lon :: real
  Command :: string
  Options :: string
  Bandwidth :: string
  Provider :: string

text \<open>The anonymous struct of \<^verbatim>\<open>serversWithBandwidth\<close>: the same fields and three more.\<close>

record scored_server = server +
  BandwidthGbps :: real
  BandwidthMbps :: real
  Score :: real

text \<open>\<^verbatim>\<open>type NetblastResult struct\<close>; the first four fields carry a prefix, since
  \<^verbatim>\<open>Host\<close>, \<^verbatim>\<open>Port\<close> and \<^verbatim>\<open>Distance\<close> are fields of the server record already.\<close>

record NetblastResult =
  resHost :: string
  resPort :: int
  resLocation :: string
  resDistance :: int
  DownloadMbps :: real
  UploadMbps :: real
  TestCompleted :: bool
  Rank :: int

subsection \<open>Library functions the code calls\<close>

text \<open>\<^verbatim>\<open>strings.Split(s, sep)\<close> for a separator of one character: a string with \<open>n\<close>
  separators has \<open>n + 1\<close> parts, and the empty string has the one part \<open>''''\<close>.\<close>

fun Split :: "string \<Rightarrow> char \<Rightarrow> string list" where
  "Split [] sep = [[]]"
| "Split (c # cs) sep =
     (if c = sep then [] # Split cs sep
      else (case Split cs sep of part # parts \<Rightarrow> (c # part) # parts | [] \<Rightarrow> [[c]]))"

fun HasPrefix :: "string \<Rightarrow> string \<Rightarrow> bool" where
  "HasPrefix s [] = True"
| "HasPrefix [] (p # ps) = False"
| "HasPrefix (c # cs) (p # ps) = (c = p \<and> HasPrefix cs ps)"

text \<open>\<^verbatim>\<open>strings.Contains(s, substr)\<close>\<close>

fun Contains :: "string \<Rightarrow> string \<Rightarrow> bool" where
  "Contains [] substr = (substr = [])"
| "Contains (c # cs) substr = (HasPrefix (c # cs) substr \<or> Contains cs substr)"

text \<open>\<^verbatim>\<open>fmt.Sprintf("%d", n)\<close>\<close>

fun decimal :: "nat \<Rightarrow> string" where
  "decimal n =
     (if n < 10 then [''0123456789'' ! n]
      else decimal (n div 10) @ [''0123456789'' ! (n mod 10)])"

declare decimal.simps [simp del]

definition Sprintf_d :: "int \<Rightarrow> string" where
  "Sprintf_d n = (if n < 0 then CHR ''-'' # decimal (nat (- n)) else decimal (nat n))"

text \<open>
  \<^verbatim>\<open>strconv.ParseFloat(s, 64)\<close> is a parameter of the model: a function that returns the
  value and whether the error is \<^verbatim>\<open>nil\<close>. The code reads the value without the error
  in one place and only under \<^verbatim>\<open>err == nil\<close> in the others.
\<close>

type_synonym parse_float = "string \<Rightarrow> real \<times> bool"

text \<open>An instance for the witnesses: it parses the unsigned decimal integers, as
  \<^verbatim>\<open>strconv.ParseFloat\<close> does, and rejects every other string.\<close>

fun digitsValue :: "string \<Rightarrow> nat \<Rightarrow> nat option" where
  "digitsValue [] acc = Some acc"
| "digitsValue (c # cs) acc =
     (let d = (of_char c :: nat)
      in if 48 \<le> d \<and> d \<le> 57 then digitsValue cs (10 * acc + (d - 48)) else None)"

definition parseDigits :: parse_float where
  "parseDigits s =
     (if s = [] then (0, False)
      else (case digitsValue s 0 of Some n \<Rightarrow> (real n, True) | None \<Rightarrow> (0, False)))"

text \<open>\<^verbatim>\<open>math.Atan2(y, x)\<close> on finite arguments.\<close>

definition Atan2 :: "real \<Rightarrow> real \<Rightarrow> real" where
  "Atan2 y x =
     (if y = 0 then (if x \<ge> 0 then 0 else pi)
      else if x = 0 then (if y > 0 then pi / 2 else - (pi / 2))
      else (let q = arctan (y / x)
            in if x < 0 then (if q \<le> 0 then q + pi else q - pi) else q))"

text \<open>The conversion \<^verbatim>\<open>int(x)\<close> of a float: the fraction is discarded (truncation towards zero).\<close>

definition toInt :: "real \<Rightarrow> int" where
  "toInt x = (if x \<ge> 0 then \<lfloor>x\<rfloor> else \<lceil>x\<rceil>)"

subsection \<open>Self location\<close>

text \<open>The outcome of \<^verbatim>\<open>runCommand("curl", ...)\<close> followed by \<^verbatim>\<open>json.Unmarshal\<close>:
  the command fails, or its output is not JSON of the expected shape, or the struct is
  filled (a field the document does not have stays the empty string).\<close>

datatype 'a fetched = CommandFailed | UnmarshalFailed | Unmarshalled 'a

record selfLocation =
  IP :: string
  selfCity :: string
  selfRegion :: string
  selfCountry :: string
  Loc :: string
  Timezone :: string

text \<open>Lines 3278 to 3312 of \<^verbatim>\<open>runNetblastTests\<close>: the location, \<open>selfLat\<close> and \<open>selfLon\<close>,
  or the error the run returns.\<close>

definition locateSelf :: "parse_float \<Rightarrow> selfLocation fetched \<Rightarrow> string + (selfLocation \<times> real \<times> real)" where
  "locateSelf ParseFloat response =
     (case response of
        CommandFailed \<Rightarrow> Inl ''error getting self location''
      | UnmarshalFailed \<Rightarrow> Inl ''error parsing self location''
      | Unmarshalled loc \<Rightarrow>
          (let (selfLat, selfLon) =
                 (if Loc loc \<noteq> [] then
                    (let locParts = Split (Loc loc) CHR '',''
                     in if length locParts = 2
                        then (fst (ParseFloat (locParts ! 0)), fst (ParseFloat (locParts ! 1)))
                        else (0, 0))
                  else (0, 0))
           in Inr (loc, selfLat, selfLon)))"

subsection \<open>Distance\<close>

definition calculateDistance :: "real \<Rightarrow> real \<Rightarrow> real \<Rightarrow> real \<Rightarrow> int" where
  "calculateDistance lat1 lon1 lat2 lon2 =
     (let earthRadius = 6371;
          lat1Rad = lat1 * pi / 180;
          lon1Rad = lon1 * pi / 180;
          lat2Rad = lat2 * pi / 180;
          lon2Rad = lon2 * pi / 180;
          dLat = lat2Rad - lat1Rad;
          dLon = lon2Rad - lon1Rad;
          a = sin (dLat / 2) * sin (dLat / 2)
              + cos lat1Rad * cos lat2Rad * sin (dLon / 2) * sin (dLon / 2);
          c = 2 * Atan2 (sqrt a) (sqrt (1 - a));
          distance = earthRadius * c
      in toInt distance)"

text \<open>
  The distance as the specification words it (section 4.4), for comparison with the code:
  the Haversine formula on a sphere of radius 6371 km, rounded to the nearest integer.
\<close>

definition spec_distanceKm :: "real \<Rightarrow> real \<Rightarrow> real \<Rightarrow> real \<Rightarrow> int" where
  "spec_distanceKm lat1 lon1 lat2 lon2 =
     (let phi1 = lat1 * pi / 180;
          phi2 = lat2 * pi / 180;
          dlat = (lat2 - lat1) * pi / 180;
          dlon = (lon2 - lon1) * pi / 180;
          a = (sin (dlat / 2))\<^sup>2 + cos phi1 * cos phi2 * (sin (dlon / 2))\<^sup>2;
          c = 2 * Atan2 (sqrt a) (sqrt (1 - a))
      in round (6371 * c))"

subsection \<open>Capacity and score\<close>

text \<open>The bandwidth parsing of lines 3531 to 3551.\<close>

definition parseBandwidthGbps :: "parse_float \<Rightarrow> string \<Rightarrow> real" where
  "parseBandwidthGbps ParseFloat bandwidthStr =
     (if Contains bandwidthStr ''x'' then
        (let parts = Split bandwidthStr CHR ''x''
         in if length parts = 2 then
              (case (ParseFloat (parts ! 0), ParseFloat (parts ! 1)) of
                 ((count', ok1), (speed, ok2)) \<Rightarrow> if ok1 \<and> ok2 then count' * speed else 1)
            else 1)
      else (case ParseFloat bandwidthStr of (speed, ok) \<Rightarrow> if ok then speed else 1))"

text \<open>The body of the loop of lines 3530 to 3607.\<close>

definition scoreServer :: "parse_float \<Rightarrow> server \<Rightarrow> scored_server" where
  "scoreServer ParseFloat server =
     (let bandwidthGbps = parseBandwidthGbps ParseFloat (Bandwidth server);
          bandwidthMbps = bandwidthGbps * 1000;
          bandwidthScore0 = (bandwidthGbps / 100) * 100;
          bandwidthScore = (if bandwidthScore0 > 100 then 100 else bandwidthScore0);
          distanceScore0 = real_of_int (Distance server) / 200;
          distanceScore = (if distanceScore0 > 100 then 100 else distanceScore0);
          score = bandwidthScore * 0.8 - distanceScore * 0.2
      in \<lparr>Host = Host server, Port = Port server, City = City server,
          Country = Country server, Distance = Distance server, Lat = Lat server,
          Lon = Lon server, Command = Command server, Options = Options server,
          Bandwidth = Bandwidth server, Provider = Provider server,
          BandwidthGbps = bandwidthGbps, BandwidthMbps = bandwidthMbps, Score = score\<rparr>)"

definition scoreServers :: "parse_float \<Rightarrow> server list \<Rightarrow> scored_server list" where
  "scoreServers ParseFloat serversWithDistance = map (scoreServer ParseFloat) serversWithDistance"

subsection \<open>Server selection\<close>

text \<open>Lines 3499 to 3507; the argument is \<^verbatim>\<open>sysInfo.SpeedtestResults.DownloadMbps\<close>.\<close>

definition estimatedUserBandwidth :: "real \<Rightarrow> real" where
  "estimatedUserBandwidth speedtestDownloadMbps =
     (let estimated = (if speedtestDownloadMbps > 0 then speedtestDownloadMbps else 1000)
      in if estimated > 10000 then 25000 else estimated)"

text \<open>Lines 3633 to 3652; \<open>serversWithBandwidth\<close> is the scored list, highest score first.\<close>

definition highBandwidthServers :: "real \<Rightarrow> scored_server list \<Rightarrow> scored_server list" where
  "highBandwidthServers estimated serversWithBandwidth =
     (let minRequiredBandwidth = estimated * 1.5;
          high = filter (\<lambda>server. BandwidthMbps server \<ge> minRequiredBandwidth) serversWithBandwidth
      in if length high < 5
         then take (min 10 (length serversWithBandwidth)) serversWithBandwidth
         else high)"

record selection =
  selectedServers :: "scored_server list"
  selectedProviders :: "string set"
  selectedLocations :: "string set"

definition alreadySelected :: "scored_server \<Rightarrow> scored_server list \<Rightarrow> bool" where
  "alreadySelected server selected =
     list_ex (\<lambda>sel. Host sel = Host server \<and> Port sel = Port server) selected"

definition locationOf :: "scored_server \<Rightarrow> string" where
  "locationOf server = City server @ '','' @ Country server"

text \<open>Lines 3677 to 3681: the highest scoring server is taken first.\<close>

definition firstPick :: "scored_server list \<Rightarrow> selection" where
  "firstPick high =
     (case high of
        [] \<Rightarrow> \<lparr>selectedServers = [], selectedProviders = {}, selectedLocations = {}\<rparr>
      | best # _ \<Rightarrow> \<lparr>selectedServers = [best], selectedProviders = {Provider best},
                     selectedLocations = {locationOf best}\<rparr>)"

text \<open>The loop of lines 3684 to 3712, with its \<^verbatim>\<open>continue\<close> and \<^verbatim>\<open>break\<close>.\<close>

fun diversityPass :: "scored_server list \<Rightarrow> selection \<Rightarrow> selection" where
  "diversityPass [] sel = sel"
| "diversityPass (server # rest) sel =
     (if alreadySelected server (selectedServers sel) then diversityPass rest sel
      else if Provider server \<in> selectedProviders sel \<and> locationOf server \<in> selectedLocations sel
      then diversityPass rest sel
      else (let sel' = \<lparr>selectedServers = selectedServers sel @ [server],
                        selectedProviders = insert (Provider server) (selectedProviders sel),
                        selectedLocations = insert (locationOf server) (selectedLocations sel)\<rparr>
            in if length (selectedServers sel') \<ge> 5 then sel' else diversityPass rest sel'))"

text \<open>The loop of lines 3716 to 3734.\<close>

fun fillPass :: "scored_server list \<Rightarrow> scored_server list \<Rightarrow> scored_server list" where
  "fillPass [] selected = selected"
| "fillPass (server # rest) selected =
     (if \<not> alreadySelected server selected then
        (let selected' = selected @ [server]
         in if length selected' \<ge> 5 then selected' else fillPass rest selected')
      else fillPass rest selected)"

text \<open>Lines 3672 to 3740: both passes and the final cut to five servers.\<close>

definition selectServers :: "scored_server list \<Rightarrow> scored_server list" where
  "selectServers high =
     (let sel = diversityPass high (firstPick high);
          selected = (if length (selectedServers sel) < 5
                      then fillPass high (selectedServers sel)
                      else selectedServers sel)
      in if length selected > 5 then take 5 selected else selected)"

definition selectFrom :: "real \<Rightarrow> scored_server list \<Rightarrow> scored_server list" where
  "selectFrom speedtestDownloadMbps serversWithBandwidth =
     selectServers (highBandwidthServers (estimatedUserBandwidth speedtestDownloadMbps)
                      serversWithBandwidth)"

text \<open>Lines 3765 to 3791: the selected servers without their score fields.\<close>

definition toServer :: "scored_server \<Rightarrow> server" where
  "toServer server =
     \<lparr>Host = Host server, Port = Port server, City = City server,
      Country = Country server, Distance = Distance server, Lat = Lat server,
      Lon = Lon server, Command = Command server, Options = Options server,
      Bandwidth = Bandwidth server, Provider = Provider server\<rparr>"

subsection \<open>The test of one server\<close>

text \<open>
  What an \<^verbatim>\<open>iperf3 -J\<close> run gives the task: the command fails (\<^verbatim>\<open>err != nil\<close>, which
  covers a timeout), or it prints something \<^verbatim>\<open>json.Unmarshal\<close> rejects, or it prints
  a JSON object, of which the task reads \<^verbatim>\<open>end.sum_received.bits_per_second\<close> and
  \<^verbatim>\<open>end.sum_sent.bits_per_second\<close> (absent, or not a number: \<open>None\<close>).
\<close>

datatype iperf_output = Malformed | Report "real option" "real option"

datatype command_result = Failed | Output iperf_output

text \<open>The environment of one task answers its \<open>n\<close>-th call of \<^verbatim>\<open>runCommand\<close>; the
  task's state is the list of the commands it has run.\<close>

type_synonym environment = "nat \<Rightarrow> command_result"

definition runCommand :: "environment \<Rightarrow> string list list \<Rightarrow> string list
    \<Rightarrow> command_result \<times> string list list" where
  "runCommand env issued args = (env (length issued), issued @ [args])"

definition downloadArgs :: "string list \<Rightarrow> string list" where
  "downloadArgs commandParts = [''timeout'', ''15''] @ commandParts @ [''-t'', ''5'', ''-J'']"

definition downloadRetryArgs :: "server \<Rightarrow> string list" where
  "downloadRetryArgs serverCopy =
     [''timeout'', ''10'', ''iperf3'', ''-c'', Host serverCopy, ''-p'',
      Sprintf_d (Port serverCopy), ''-t'', ''3'', ''-J'']"

definition uploadArgs :: "string list \<Rightarrow> string list" where
  "uploadArgs commandParts = [''timeout'', ''15''] @ commandParts @ [''-t'', ''5'', ''-R'', ''-J'']"

definition uploadRetryArgs :: "server \<Rightarrow> string list" where
  "uploadRetryArgs serverCopy =
     [''timeout'', ''10'', ''iperf3'', ''-c'', Host serverCopy, ''-p'',
      Sprintf_d (Port serverCopy), ''-t'', ''3'', ''-R'', ''-J'']"

text \<open>Lines 3943 to 3949: the end of the task.\<close>

definition finish :: "NetblastResult \<Rightarrow> NetblastResult" where
  "finish result =
     (if DownloadMbps result > 0 \<and> UploadMbps result > 0
      then result\<lparr>TestCompleted := True\<rparr> else result)"

text \<open>Lines 3900 to 3937: the upload test, entered when the download speed is positive
  and the options of the server contain \<^verbatim>\<open>-R\<close>.\<close>

definition uploadTest :: "environment \<Rightarrow> string list list \<Rightarrow> server \<Rightarrow> string list
    \<Rightarrow> NetblastResult \<Rightarrow> NetblastResult \<times> string list list" where
  "uploadTest env issued serverCopy commandParts result =
     (case runCommand env issued (uploadArgs commandParts) of (first, issued1) \<Rightarrow>
        (case (if first = Failed then runCommand env issued1 (uploadRetryArgs serverCopy)
               else (first, issued1)) of (uploadOutput, issued2) \<Rightarrow>
           (case uploadOutput of
              Failed \<Rightarrow> (result, issued2)
            | Output Malformed \<Rightarrow> (result, issued2)
            | Output (Report received sent) \<Rightarrow>
                (finish (case sent of Some bitsPerSecond \<Rightarrow>
                                   result\<lparr>UploadMbps := bitsPerSecond / 1000000\<rparr>
                                 | None \<Rightarrow> result), issued2))))"

text \<open>Lines 3832 to 3950: the goroutine of one server. It returns the result it sends
  to the channel, and the commands it has run.\<close>

definition netblastTask :: "environment \<Rightarrow> server \<Rightarrow> int
    \<Rightarrow> NetblastResult \<times> string list list" where
  "netblastTask env serverCopy rank =
     (let result = \<lparr>resHost = Host serverCopy, resPort = Port serverCopy,
                     resLocation = City serverCopy @ '', '' @ Country serverCopy,
                     resDistance = Distance serverCopy,
                     DownloadMbps = - 1, UploadMbps = - 1,
                     TestCompleted = False, Rank = rank\<rparr>;
          commandParts = Split (Command serverCopy) CHR '' ''
      in if length commandParts < 3 then (result, [])
         else
           (case runCommand env [] (downloadArgs commandParts) of (first, issued1) \<Rightarrow>
              (case (if first = Failed then runCommand env issued1 (downloadRetryArgs serverCopy)
                     else (first, issued1)) of (downloadOutput, issued2) \<Rightarrow>
                 (case downloadOutput of
                    Failed \<Rightarrow> (result, issued2)
                  | Output Malformed \<Rightarrow> (result, issued2)
                  | Output (Report received sent) \<Rightarrow>
                      (let result1 = (case received of
                                        Some bitsPerSecond \<Rightarrow>
                                          result\<lparr>DownloadMbps := bitsPerSecond / 1000000\<rparr>
                                      | None \<Rightarrow> result)
                       in if DownloadMbps result1 > 0 \<and> Contains (Options serverCopy) ''-R''
                          then uploadTest env issued2 serverCopy commandParts result1
                          else (finish result1, issued2))))))"

text \<open>Lines 3826 to 3951: one task per selected server, the \<open>i\<close>-th with its own
  environment and the provisional rank \<open>i + 1\<close>. The channel hands the results over in
  the order the tasks complete, which is some permutation of this list.\<close>

definition runTests :: "(nat \<Rightarrow> environment) \<Rightarrow> server list \<Rightarrow> NetblastResult list" where
  "runTests envs servers =
     map (\<lambda>(i, server). fst (netblastTask (envs i) server (int i + 1))) (enumerate 0 servers)"

subsection \<open>Result aggregation\<close>

text \<open>
  \<^verbatim>\<open>sort.Slice(results, less)\<close>. The results slice has one entry per selected server,
  and the selection is cut to five entries, so the library sorts it by its insertion sort
  (the branch it takes for short slices):
  \<^verbatim>\<open>for i := a + 1; i < b; i++ { for j := i; j > a && less(j, j-1); j-- { swap(j, j-1) } }\<close>.
  \<open>bubbleLeft\<close> is the inner loop: the sorted prefix is held nearest element first, and
  the new element moves past every predecessor it is \<open>less\<close> than.
\<close>

fun bubbleLeft :: "('a \<Rightarrow> 'a \<Rightarrow> bool) \<Rightarrow> 'a \<Rightarrow> 'a list \<Rightarrow> 'a list" where
  "bubbleLeft lt x [] = [x]"
| "bubbleLeft lt x (p # ps) =
     (if lt x p then p # bubbleLeft lt x ps else x # p # ps)"

definition sortSlice :: "('a \<Rightarrow> 'a \<Rightarrow> bool) \<Rightarrow> 'a list \<Rightarrow> 'a list" where
  "sortSlice lt xs = rev (foldl (\<lambda>prefix x. bubbleLeft lt x prefix) [] xs)"

text \<open>The comparison of the aggregation: \<^verbatim>\<open>results[i].DownloadMbps > results[j].DownloadMbps\<close>.\<close>

definition byDownload :: "NetblastResult \<Rightarrow> NetblastResult \<Rightarrow> bool" where
  "byDownload a b = (DownloadMbps a > DownloadMbps b)"

text \<open>\<^verbatim>\<open>for i := range results { results[i].Rank = i + 1 }\<close>\<close>

definition assignRanks :: "NetblastResult list \<Rightarrow> NetblastResult list" where
  "assignRanks results = map (\<lambda>(i, r). r\<lparr>Rank := int i + 1\<rparr>) (enumerate 0 results)"

definition aggregate :: "NetblastResult list \<Rightarrow> NetblastResult list" where
  "aggregate results = assignRanks (sortSlice byDownload results)"

subsection \<open>Sample inputs\<close>

definition sampleResult :: "string \<Rightarrow> real \<Rightarrow> NetblastResult" where
  "sampleResult host download =
     \<lparr>resHost = host, resPort = 5201, resLocation = ''Paris, FR'', resDistance = 340,
      DownloadMbps = download, UploadMbps = - 1, TestCompleted = False, Rank = 0\<rparr>"

definition sampleServer :: "string \<Rightarrow> int \<Rightarrow> string \<Rightarrow> string \<Rightarrow> server" where
  "sampleServer host port provider bandwidth =
     \<lparr>Host = host, Port = port, City = ''Paris'', Country = ''FR'', Distance = 340,
      Lat = 48.8566, Lon = 2.3522, Command = ''iperf3 -c '' @ host, Options = ''-R'',
      Bandwidth = bandwidth, Provider = provider\<rparr>"

definition sampleScored :: "scored_server list" where
  "sampleScored = scoreServers parseDigits
     [sampleServer ''a.example'' 5201 ''P1'' ''40'',
      sampleServer ''a.example'' 5201 ''P2'' ''2x10'',
      sampleServer ''b.example'' 5201 ''P1'' ''10'']"

definition sampleEnvs :: "nat \<Rightarrow> environment" where
  "sampleEnvs i = (if i = 0 then (\<lambda>n. Failed)
                   else (\<lambda>n. Output (Report (Some 940000000) (Some 880000000))))"

definition sampleServers :: "server list" where
  "sampleServers = [sampleServer ''a.example'' 5201 ''P1'' ''40'',
                    sampleServer ''b.example'' 5201 ''P2'' ''10'']"

definition sampleServerPort :: server where
  "sampleServerPort =
     \<lparr>Host = ''b.example'', Port = 5202, City = ''Paris'', Country = ''FR'', Distance = 340,
      Lat = 48.8566, Lon = 2.3522, Command = ''iperf3 -c b.example -p 5202'', Options = ''-R'',
      Bandwidth = ''10'', Provider = ''P2''\<rparr>"

text \<open>Two candidates: one near with 10 Gbps, one far with 100 Gbps.\<close>

definition sampleNear :: server where
  "sampleNear = (sampleServer ''a.example'' 5201 ''P1'' ''10'')\<lparr>Distance := 100\<rparr>"

definition sampleFar :: server where
  "sampleFar = (sampleServer ''b.example'' 5201 ''P2'' ''100'')\<lparr>Distance := 10000\<rparr>"

text \<open>An environment whose first command fails and whose later commands measure.\<close>

definition sampleEnvRetry :: environment where
  "sampleEnvRetry n = (if n = 0 then Failed
                       else Output (Report (Some 940000000) (Some 880000000)))"

section \<open>Properties\<close>

subsection \<open>Aggregation\<close>

lemma mset_bubbleLeft: "mset (bubbleLeft lt x ps) = add_mset x (mset ps)"
  by (induction ps) auto

lemma mset_foldl_bubbleLeft:
  "mset (foldl (\<lambda>prefix x. bubbleLeft lt x prefix) acc xs) = mset acc + mset xs"
  by (induction xs arbitrary: acc) (auto simp: mset_bubbleLeft)

lemma mset_sortSlice: "mset (sortSlice lt xs) = mset xs"
  by (simp add: sortSlice_def mset_foldl_bubbleLeft)

lemma length_sortSlice: "length (sortSlice lt xs) = length xs"
  using mset_sortSlice [of lt xs] by (metis size_mset)

lemma set_bubbleLeft: "set (bubbleLeft lt x ps) = insert x (set ps)"
  using mset_bubbleLeft [of lt x ps] by (metis set_mset_add_mset_insert set_mset_mset)

lemma ascending_bubbleLeft:
  "sorted_wrt (\<lambda>a b. DownloadMbps a \<le> DownloadMbps b) ps \<Longrightarrow>
   sorted_wrt (\<lambda>a b. DownloadMbps a \<le> DownloadMbps b) (bubbleLeft byDownload x ps)"
  by (induction ps) (auto simp: byDownload_def set_bubbleLeft)

lemma ascending_foldl_bubbleLeft:
  "sorted_wrt (\<lambda>a b. DownloadMbps a \<le> DownloadMbps b) acc \<Longrightarrow>
   sorted_wrt (\<lambda>a b. DownloadMbps a \<le> DownloadMbps b)
     (foldl (\<lambda>prefix x. bubbleLeft byDownload x prefix) acc xs)"
  by (induction xs arbitrary: acc) (auto simp: ascending_bubbleLeft)

lemma descending_sortSlice:
  "sorted_wrt (\<lambda>a b. DownloadMbps a \<ge> DownloadMbps b) (sortSlice byDownload xs)"
proof -
  have "sorted_wrt (\<lambda>a b. DownloadMbps a \<le> DownloadMbps b)
          (foldl (\<lambda>prefix x. bubbleLeft byDownload x prefix) [] xs)"
    by (rule ascending_foldl_bubbleLeft) simp
  then show ?thesis
    by (simp add: sortSlice_def sorted_wrt_rev)
qed

lemma length_assignRanks: "length (assignRanks rs) = length rs"
  by (simp add: assignRanks_def)

lemma nth_assignRanks:
  "i < length rs \<Longrightarrow> assignRanks rs ! i = (rs ! i)\<lparr>Rank := int i + 1\<rparr>"
  by (simp add: assignRanks_def nth_enumerate_eq)

lemma map_DownloadMbps_assignRanks:
  "map DownloadMbps (assignRanks rs) = map DownloadMbps rs"
  by (rule nth_equalityI) (simp_all add: length_assignRanks nth_assignRanks)

lemma map_Rank_assignRanks:
  "map Rank (assignRanks rs) = map int [1 ..< Suc (length rs)]"
proof (rule nth_equalityI)
  show "length (map Rank (assignRanks rs)) = length (map int [1 ..< Suc (length rs)])"
    by (simp add: length_assignRanks del: upt_Suc)
next
  fix i assume "i < length (map Rank (assignRanks rs))"
  then have i: "i < length rs" by (simp add: length_assignRanks)
  then have "[1 ..< Suc (length rs)] ! i = 1 + i"
    by (simp del: upt_Suc)
  with i show "map Rank (assignRanks rs) ! i = map int [1 ..< Suc (length rs)] ! i"
    by (simp add: length_assignRanks nth_assignRanks del: upt_Suc)
qed

lemma descending_aggregate:
  "sorted_wrt (\<lambda>a b. DownloadMbps a \<ge> DownloadMbps b) (aggregate rs)"
proof -
  have "sorted_wrt (\<lambda>x y. x \<ge> y) (map DownloadMbps (sortSlice byDownload rs))"
    using descending_sortSlice [of rs] by (simp add: sorted_wrt_map)
  then have "sorted_wrt (\<lambda>x y. x \<ge> y) (map DownloadMbps (aggregate rs))"
    by (simp add: aggregate_def map_DownloadMbps_assignRanks)
  then show ?thesis by (simp add: sorted_wrt_map)
qed

lemma length_aggregate: "length (aggregate rs) = length rs"
  by (simp add: aggregate_def length_assignRanks length_sortSlice)

text \<open>
  C3. For every list of test results, the aggregated output is sorted non-increasing by
  \<open>DownloadMbps\<close>, every entry with \<open>DownloadMbps = -1\<close> stands after every entry with
  \<open>DownloadMbps > 0\<close>, and the ranks of the output, read in order, are \<open>1, \<dots>, N\<close>
  where \<open>N\<close> is the number of results.
\<close>

theorem aggregate_sorted_ranked:
  "sorted_wrt (\<lambda>a b. DownloadMbps a \<ge> DownloadMbps b) (aggregate rs)
   \<and> (\<forall>i j. i < length (aggregate rs) \<and> j < length (aggregate rs)
         \<and> DownloadMbps (aggregate rs ! i) = -1 \<and> DownloadMbps (aggregate rs ! j) > 0
         \<longrightarrow> j < i)
   \<and> length (aggregate rs) = length rs
   \<and> map Rank (aggregate rs) = map int [1 ..< Suc (length rs)]"
proof (intro conjI allI impI)
  show "sorted_wrt (\<lambda>a b. DownloadMbps a \<ge> DownloadMbps b) (aggregate rs)"
    by (rule descending_aggregate)
next
  fix i j
  assume h: "i < length (aggregate rs) \<and> j < length (aggregate rs)
    \<and> DownloadMbps (aggregate rs ! i) = -1 \<and> DownloadMbps (aggregate rs ! j) > 0"
  show "j < i"
  proof (rule ccontr)
    assume "\<not> j < i"
    then have "i \<le> j" by simp
    moreover have "i \<noteq> j" using h by auto
    ultimately have "i < j" by simp
    moreover have "j < length (aggregate rs)" using h by simp
    ultimately have "DownloadMbps (aggregate rs ! i) \<ge> DownloadMbps (aggregate rs ! j)"
      using sorted_wrt_nth_less [OF descending_aggregate [of rs], of i j] by simp
    with h show False by simp
  qed
next
  show "length (aggregate rs) = length rs" by (rule length_aggregate)
next
  show "map Rank (aggregate rs) = map int [1 ..< Suc (length rs)]"
    by (simp add: aggregate_def map_Rank_assignRanks length_sortSlice del: upt_Suc)
qed

theorem aggregate_sorted_ranked_witness:
  "let out = aggregate [sampleResult ''a'' (-1), sampleResult ''b'' 500, sampleResult ''c'' 900] in
   2 < length out \<and> 0 < length out \<and> DownloadMbps (out ! 2) = -1 \<and> DownloadMbps (out ! 0) > 0
   \<and> (0::nat) < 2 \<and> map Rank out = [1, 2, 3] \<and> map resHost out = [''c'', ''b'', ''a'']"
  using aggregate_sorted_ranked [of "[sampleResult ''a'' (-1), sampleResult ''b'' 500, sampleResult ''c'' 900]"]
  by (simp add: aggregate_def sortSlice_def byDownload_def assignRanks_def sampleResult_def enumerate_eq_zip)

lemma filter_bubbleLeft:
  "filter (\<lambda>r. DownloadMbps r = v) (bubbleLeft byDownload x ps) =
     (if DownloadMbps x = v then x # filter (\<lambda>r. DownloadMbps r = v) ps
      else filter (\<lambda>r. DownloadMbps r = v) ps)"
  by (induction ps) (auto simp: byDownload_def)

lemma filter_foldl_bubbleLeft:
  "filter (\<lambda>r. DownloadMbps r = v) (foldl (\<lambda>prefix x. bubbleLeft byDownload x prefix) acc xs) =
     rev (filter (\<lambda>r. DownloadMbps r = v) xs) @ filter (\<lambda>r. DownloadMbps r = v) acc"
  by (induction xs arbitrary: acc) (simp_all add: filter_bubbleLeft)

lemma stable_sortSlice:
  "filter (\<lambda>r. DownloadMbps r = v) (sortSlice byDownload xs) = filter (\<lambda>r. DownloadMbps r = v) xs"
  by (simp add: sortSlice_def filter_foldl_bubbleLeft flip: rev_filter)

lemma map_filter_list_all2:
  "list_all2 (\<lambda>a b. P a = P b \<and> f a = f b) xs ys \<Longrightarrow>
   map f (filter P xs) = map f (filter P ys)"
  by (induction xs ys rule: list_all2_induct) auto

lemma assignRanks_rel:
  "list_all2 (\<lambda>a b. (DownloadMbps a = v) = (DownloadMbps b = v)
      \<and> a\<lparr>Rank := 0\<rparr> = b\<lparr>Rank := 0\<rparr>) (assignRanks ys) ys"
  by (simp add: list_all2_conv_all_nth length_assignRanks nth_assignRanks)

lemma stable_aggregate:
  "map (\<lambda>r. r\<lparr>Rank := 0\<rparr>) (filter (\<lambda>r. DownloadMbps r = v) (aggregate rs)) =
   map (\<lambda>r. r\<lparr>Rank := 0\<rparr>) (filter (\<lambda>r. DownloadMbps r = v) rs)"
proof -
  have "map (\<lambda>r. r\<lparr>Rank := 0\<rparr>) (filter (\<lambda>r. DownloadMbps r = v) (aggregate rs)) =
        map (\<lambda>r. r\<lparr>Rank := 0\<rparr>) (filter (\<lambda>r. DownloadMbps r = v) (sortSlice byDownload rs))"
    unfolding aggregate_def by (rule map_filter_list_all2) (rule assignRanks_rel)
  then show ?thesis by (simp add: stable_sortSlice)
qed

lemma downloads_sortSlice:
  "rev (map DownloadMbps (sortSlice byDownload xs)) = sort (map DownloadMbps xs)"
proof -
  have "sorted_wrt (\<lambda>x y. x \<ge> y) (map DownloadMbps (sortSlice byDownload xs))"
    using descending_sortSlice [of xs] by (simp add: sorted_wrt_map)
  then have "sorted (rev (map DownloadMbps (sortSlice byDownload xs)))"
    by (simp add: sorted_wrt_rev)
  moreover have "mset (rev (map DownloadMbps (sortSlice byDownload xs))) = mset (map DownloadMbps xs)"
    by (simp add: mset_sortSlice)
  ultimately show ?thesis
    by (metis properties_for_sort)
qed

lemma sortSlice_permutation:
  assumes "mset xs = mset ys" and "distinct (map DownloadMbps xs)"
  shows "sortSlice byDownload xs = sortSlice byDownload ys"
proof -
  have "mset (map DownloadMbps xs) = mset (map DownloadMbps ys)"
    using assms(1) by simp
  then have "sort (map DownloadMbps xs) = sort (map DownloadMbps ys)"
    by (metis properties_for_sort sorted_sort mset_sort)
  then have eq: "map DownloadMbps (sortSlice byDownload xs) = map DownloadMbps (sortSlice byDownload ys)"
    using downloads_sortSlice [of xs] downloads_sortSlice [of ys] by (metis rev_rev_ident)
  have "set (sortSlice byDownload xs) = set xs" "set (sortSlice byDownload ys) = set xs"
    using mset_sortSlice [of byDownload xs] mset_sortSlice [of byDownload ys] assms(1)
    by (metis set_mset_mset)+
  moreover have "inj_on DownloadMbps (set xs)"
    using assms(2) by (simp add: distinct_map)
  ultimately have "inj_on DownloadMbps (set (sortSlice byDownload xs) \<union> set (sortSlice byDownload ys))"
    by simp
  then show ?thesis using eq by (simp add: inj_on_map_eq_map)
qed

text \<open>
  C2, as the code has it. For the at most five results of a run, the ranking is stable:
  the entries that share a \<open>DownloadMbps\<close> value keep their prior relative order (the
  rank field aside, which the aggregation overwrites). For two input lists that are
  permutations of each other the outputs have the same \<open>DownloadMbps\<close> and \<open>Rank\<close>
  columns, and they are identical when no two results share a \<open>DownloadMbps\<close> value.
\<close>

theorem aggregate_stable_order:
  assumes "length rs \<le> 5"
  shows "(\<forall>v. map (\<lambda>r. r\<lparr>Rank := 0\<rparr>) (filter (\<lambda>r. DownloadMbps r = v) (aggregate rs)) =
              map (\<lambda>r. r\<lparr>Rank := 0\<rparr>) (filter (\<lambda>r. DownloadMbps r = v) rs))
       \<and> (\<forall>rs'. mset rs' = mset rs \<longrightarrow>
              map DownloadMbps (aggregate rs') = map DownloadMbps (aggregate rs)
            \<and> map Rank (aggregate rs') = map Rank (aggregate rs)
            \<and> (distinct (map DownloadMbps rs) \<longrightarrow> aggregate rs' = aggregate rs))"
proof (intro conjI allI impI)
  fix v
  show "map (\<lambda>r. r\<lparr>Rank := 0\<rparr>) (filter (\<lambda>r. DownloadMbps r = v) (aggregate rs)) =
        map (\<lambda>r. r\<lparr>Rank := 0\<rparr>) (filter (\<lambda>r. DownloadMbps r = v) rs)"
    by (rule stable_aggregate)
next
  fix rs' assume p: "mset rs' = mset rs"
  then have "sort (map DownloadMbps rs') = sort (map DownloadMbps rs)"
    by (metis properties_for_sort sorted_sort mset_sort mset_map)
  then have "map DownloadMbps (sortSlice byDownload rs') = map DownloadMbps (sortSlice byDownload rs)"
    using downloads_sortSlice [of rs'] downloads_sortSlice [of rs] by (metis rev_rev_ident)
  then show "map DownloadMbps (aggregate rs') = map DownloadMbps (aggregate rs)"
    by (simp add: aggregate_def map_DownloadMbps_assignRanks)
next
  fix rs' assume p: "mset rs' = mset rs"
  then have "length rs' = length rs" by (metis size_mset)
  then show "map Rank (aggregate rs') = map Rank (aggregate rs)"
    by (simp add: aggregate_def map_Rank_assignRanks length_sortSlice del: upt_Suc)
next
  fix rs' assume p: "mset rs' = mset rs" and d: "distinct (map DownloadMbps rs)"
  show "aggregate rs' = aggregate rs"
    using sortSlice_permutation [OF p [symmetric] d] by (simp add: aggregate_def)
qed

theorem aggregate_stable_order_witness:
  "length [sampleResult ''a'' (-1), sampleResult ''b'' 500, sampleResult ''c'' 900] \<le> 5
   \<and> mset [sampleResult ''c'' 900, sampleResult ''a'' (-1), sampleResult ''b'' 500]
       = mset [sampleResult ''a'' (-1), sampleResult ''b'' 500, sampleResult ''c'' 900]
   \<and> distinct (map DownloadMbps [sampleResult ''a'' (-1), sampleResult ''b'' 500, sampleResult ''c'' 900])
   \<and> aggregate [sampleResult ''c'' 900, sampleResult ''a'' (-1), sampleResult ''b'' 500]
       = aggregate [sampleResult ''a'' (-1), sampleResult ''b'' 500, sampleResult ''c'' 900]"
proof -
  have l: "length [sampleResult ''a'' (-1), sampleResult ''b'' 500, sampleResult ''c'' 900] \<le> 5" by simp
  have m: "mset [sampleResult ''c'' 900, sampleResult ''a'' (-1), sampleResult ''b'' 500]
       = mset [sampleResult ''a'' (-1), sampleResult ''b'' 500, sampleResult ''c'' 900]" by simp
  have d: "distinct (map DownloadMbps [sampleResult ''a'' (-1), sampleResult ''b'' 500, sampleResult ''c'' 900])"
    by (simp add: sampleResult_def)
  show ?thesis using aggregate_stable_order [OF l] l m d by blast
qed

text \<open>
  C2 as stated fails: two servers whose tests both failed (\<open>DownloadMbps = -1\<close>) are
  ranked in the order their results arrive, so the two arrival orders give different outputs.
\<close>

theorem aggregate_order_counterexample:
  "mset [sampleResult ''a'' (-1), sampleResult ''b'' (-1)] = mset [sampleResult ''b'' (-1), sampleResult ''a'' (-1)]
   \<and> aggregate [sampleResult ''a'' (-1), sampleResult ''b'' (-1)]
       \<noteq> aggregate [sampleResult ''b'' (-1), sampleResult ''a'' (-1)]"
  by (simp add: aggregate_def sortSlice_def byDownload_def assignRanks_def sampleResult_def enumerate_eq_zip)

subsection \<open>Capacity and score\<close>

lemma parseDigits_samples: "parseDigits ''40'' = (40, True)" "parseDigits ''2'' = (2, True)" "parseDigits ''10'' = (10, True)"
  "parseDigits ''10Gbit'' = (0, False)"
  by (simp_all add: parseDigits_def Let_def)

lemma Split_two: "length parts = 2 \<Longrightarrow> parts = [parts ! 0, parts ! 1]"
  by (cases parts; cases "tl parts") auto

lemma parseBandwidthGbps_default:
  assumes "\<not> snd (ParseFloat s)"
    and "\<not> (\<exists>a b. Split s CHR ''x'' = [a, b] \<and> snd (ParseFloat a) \<and> snd (ParseFloat b))"
  shows "parseBandwidthGbps ParseFloat s = 1"
proof (cases "Contains s ''x''")
  case True
  show ?thesis
  proof (cases "length (Split s CHR ''x'') = 2")
    case two: True
    then have "Split s CHR ''x'' = [Split s CHR ''x'' ! 0, Split s CHR ''x'' ! 1]"
      by (rule Split_two)
    with assms(2) have "\<not> (snd (ParseFloat (Split s CHR ''x'' ! 0)) \<and> snd (ParseFloat (Split s CHR ''x'' ! 1)))"
      by blast
    with True two show ?thesis
      by (auto simp: parseBandwidthGbps_def Let_def split: prod.splits)
  next
    case False
    with True show ?thesis by (simp add: parseBandwidthGbps_def Let_def)
  qed
next
  case False
  with assms(1) show ?thesis
    by (auto simp: parseBandwidthGbps_def split: prod.splits)
qed

lemma BandwidthGbps_scoreServer:
  "BandwidthGbps (scoreServer ParseFloat server) = parseBandwidthGbps ParseFloat (Bandwidth server)"
  by (simp add: scoreServer_def Let_def)

text \<open>
  C9. The capacity string \<open>2x10\<close> gives \<open>BandwidthGbps = 20\<close> and \<open>40\<close> gives \<open>40\<close>
  (for every \<^verbatim>\<open>ParseFloat\<close> that reads \<open>2\<close>, \<open>10\<close> and \<open>40\<close> as these numbers), and
  a capacity string that parses neither as a plain number nor as a count-times-speed
  multiplier gives the default \<open>1\<close>. No string fails the catalog: scoring returns one
  scored server for each server.
\<close>

theorem capacity_parsing:
  "(Bandwidth server = ''2x10'' \<and> ParseFloat ''2'' = (2, True) \<and> ParseFloat ''10'' = (10, True)
      \<longrightarrow> BandwidthGbps (scoreServer ParseFloat server) = 20)
   \<and> (Bandwidth server = ''40'' \<and> ParseFloat ''40'' = (40, True)
      \<longrightarrow> BandwidthGbps (scoreServer ParseFloat server) = 40)
   \<and> (\<not> snd (ParseFloat (Bandwidth server))
       \<and> \<not> (\<exists>a b. Split (Bandwidth server) CHR ''x'' = [a, b]
                  \<and> snd (ParseFloat a) \<and> snd (ParseFloat b))
      \<longrightarrow> BandwidthGbps (scoreServer ParseFloat server) = 1)
   \<and> length (scoreServers ParseFloat servers) = length servers"
proof (intro conjI impI)
  assume "Bandwidth server = ''2x10'' \<and> ParseFloat ''2'' = (2, True) \<and> ParseFloat ''10'' = (10, True)"
  then show "BandwidthGbps (scoreServer ParseFloat server) = 20"
    by (simp add: BandwidthGbps_scoreServer parseBandwidthGbps_def)
next
  assume "Bandwidth server = ''40'' \<and> ParseFloat ''40'' = (40, True)"
  then show "BandwidthGbps (scoreServer ParseFloat server) = 40"
    by (simp add: BandwidthGbps_scoreServer parseBandwidthGbps_def)
next
  assume "\<not> snd (ParseFloat (Bandwidth server))
       \<and> \<not> (\<exists>a b. Split (Bandwidth server) CHR ''x'' = [a, b]
                  \<and> snd (ParseFloat a) \<and> snd (ParseFloat b))"
  then show "BandwidthGbps (scoreServer ParseFloat server) = 1"
    by (simp add: BandwidthGbps_scoreServer parseBandwidthGbps_default)
next
  show "length (scoreServers ParseFloat servers) = length servers"
    by (simp add: scoreServers_def)
qed

theorem capacity_parsing_witness:
  "parseDigits ''2'' = (2, True) \<and> parseDigits ''10'' = (10, True) \<and> parseDigits ''40'' = (40, True)
   \<and> BandwidthGbps (scoreServer parseDigits (sampleServer ''a.example'' 5201 ''P1'' ''2x10'')) = 20
   \<and> BandwidthGbps (scoreServer parseDigits (sampleServer ''a.example'' 5201 ''P1'' ''40'')) = 40
   \<and> \<not> snd (parseDigits ''10Gbit'')
   \<and> \<not> (\<exists>a b. Split ''10Gbit'' CHR ''x'' = [a, b] \<and> snd (parseDigits a) \<and> snd (parseDigits b))
   \<and> BandwidthGbps (scoreServer parseDigits (sampleServer ''a.example'' 5201 ''P1'' ''10Gbit'')) = 1"
  using capacity_parsing [of "sampleServer ''a.example'' 5201 ''P1'' ''2x10''" parseDigits "[]"]
    capacity_parsing [of "sampleServer ''a.example'' 5201 ''P1'' ''40''" parseDigits "[]"]
    capacity_parsing [of "sampleServer ''a.example'' 5201 ''P1'' ''10Gbit''" parseDigits "[]"]
  by (simp add: sampleServer_def parseDigits_def Let_def)

text \<open>
  C7. Scoring returns one scored candidate for each server, in the same order. The
  \<open>i\<close>-th scored candidate is the \<open>i\<close>-th server (same host, port, distance and
  capacity string); its \<open>BandwidthGbps\<close> is the capacity parsed from the server's
  capacity string, and its score is \<open>0.8 * bandwidthScore - 0.2 * distanceScore\<close>, where
  \<open>bandwidthScore\<close> is \<open>min 100 (BandwidthGbps / 100 * 100)\<close> of that capacity and
  \<open>distanceScore\<close> is \<open>min 100 (Distance / 200)\<close> of the server's distance.
\<close>

theorem score_formula:
  "length (scoreServers ParseFloat servers) = length servers
   \<and> (\<forall>i < length servers.
        Host (scoreServers ParseFloat servers ! i) = Host (servers ! i)
        \<and> Port (scoreServers ParseFloat servers ! i) = Port (servers ! i)
        \<and> Distance (scoreServers ParseFloat servers ! i) = Distance (servers ! i)
        \<and> Bandwidth (scoreServers ParseFloat servers ! i) = Bandwidth (servers ! i)
        \<and> BandwidthGbps (scoreServers ParseFloat servers ! i)
            = parseBandwidthGbps ParseFloat (Bandwidth (servers ! i))
        \<and> Score (scoreServers ParseFloat servers ! i)
            = 0.8 * min 100 (parseBandwidthGbps ParseFloat (Bandwidth (servers ! i)) / 100 * 100)
              - 0.2 * min 100 (real_of_int (Distance (servers ! i)) / 200))"
  by (simp add: scoreServers_def scoreServer_def Let_def min_def)

theorem score_formula_witness:
  "(0::nat) < length [sampleNear, sampleFar] \<and> (1::nat) < length [sampleNear, sampleFar]
   \<and> Host (scoreServers parseDigits [sampleNear, sampleFar] ! 0) = ''a.example''
   \<and> Distance (scoreServers parseDigits [sampleNear, sampleFar] ! 0) = 100
   \<and> BandwidthGbps (scoreServers parseDigits [sampleNear, sampleFar] ! 0) = 10
   \<and> Score (scoreServers parseDigits [sampleNear, sampleFar] ! 0) = 7.9
   \<and> Host (scoreServers parseDigits [sampleNear, sampleFar] ! 1) = ''b.example''
   \<and> Distance (scoreServers parseDigits [sampleNear, sampleFar] ! 1) = 10000
   \<and> BandwidthGbps (scoreServers parseDigits [sampleNear, sampleFar] ! 1) = 100
   \<and> Score (scoreServers parseDigits [sampleNear, sampleFar] ! 1) = 70
   \<and> Score (scoreServers parseDigits [sampleNear, sampleFar] ! 0)
       < Score (scoreServers parseDigits [sampleNear, sampleFar] ! 1)"
  using score_formula [of parseDigits "[sampleNear, sampleFar]"]
  by (simp add: sampleNear_def sampleFar_def sampleServer_def scoreServers_def scoreServer_def
        parseBandwidthGbps_def parseDigits_def Let_def)

subsection \<open>Server selection\<close>

lemma alreadySelected_iff:
  "alreadySelected server selected \<longleftrightarrow>
     (Host server, Port server) \<in> set (map (\<lambda>s. (Host s, Port s)) selected)"
  by (induction selected) (auto simp: alreadySelected_def)

lemma distinct_diversityPass:
  "distinct (map (\<lambda>s. (Host s, Port s)) (selectedServers sel)) \<Longrightarrow>
   distinct (map (\<lambda>s. (Host s, Port s)) (selectedServers (diversityPass high sel)))"
proof (induction high arbitrary: sel)
  case Nil
  then show ?case by simp
next
  case (Cons server rest)
  show ?case
  proof (cases "alreadySelected server (selectedServers sel)")
    case True
    then show ?thesis using Cons by simp
  next
    case False
    then have fresh: "(Host server, Port server) \<notin> set (map (\<lambda>s. (Host s, Port s)) (selectedServers sel))"
      by (simp add: alreadySelected_iff)
    let ?sel' = "\<lparr>selectedServers = selectedServers sel @ [server],
                  selectedProviders = insert (Provider server) (selectedProviders sel),
                  selectedLocations = insert (locationOf server) (selectedLocations sel)\<rparr>"
    have d': "distinct (map (\<lambda>s. (Host s, Port s)) (selectedServers ?sel'))"
      using Cons.prems fresh by simp
    show ?thesis
      using False Cons.IH [OF Cons.prems] Cons.IH [OF d'] d'
      by (simp add: Let_def)
  qed
qed

lemma distinct_fillPass:
  "distinct (map (\<lambda>s. (Host s, Port s)) selected) \<Longrightarrow>
   distinct (map (\<lambda>s. (Host s, Port s)) (fillPass high selected))"
proof (induction high arbitrary: selected)
  case Nil
  then show ?case by simp
next
  case (Cons server rest)
  show ?case
  proof (cases "alreadySelected server selected")
    case True
    then show ?thesis using Cons by simp
  next
    case False
    then have "(Host server, Port server) \<notin> set (map (\<lambda>s. (Host s, Port s)) selected)"
      by (simp add: alreadySelected_iff)
    then have d': "distinct (map (\<lambda>s. (Host s, Port s)) (selected @ [server]))"
      using Cons.prems by simp
    show ?thesis
      using False Cons.IH [OF d'] d' by (simp add: Let_def)
  qed
qed

lemma distinct_firstPick:
  "distinct (map (\<lambda>s. (Host s, Port s)) (selectedServers (firstPick high)))"
  by (simp add: firstPick_def split: list.split)

lemma distinct_selectServers:
  "distinct (map (\<lambda>s. (Host s, Port s)) (selectServers high))"
proof -
  let ?sel = "diversityPass high (firstPick high)"
  have d1: "distinct (map (\<lambda>s. (Host s, Port s)) (selectedServers ?sel))"
    by (rule distinct_diversityPass) (rule distinct_firstPick)
  have d2: "distinct (map (\<lambda>s. (Host s, Port s)) (fillPass high (selectedServers ?sel)))"
    by (rule distinct_fillPass) (rule d1)
  show ?thesis
    using d1 d2 by (simp add: selectServers_def Let_def take_map [symmetric])
qed

text \<open>
  C10. The selected servers never contain two entries with the same host and port: the
  diversity pass and the fill pass each keep the (host, port) pairs of the selection
  pairwise distinct, and so is the final selection.
\<close>

theorem selection_distinct:
  "(distinct (map (\<lambda>s. (Host s, Port s)) (selectedServers sel)) \<longrightarrow>
      distinct (map (\<lambda>s. (Host s, Port s)) (selectedServers (diversityPass high sel))))
   \<and> (distinct (map (\<lambda>s. (Host s, Port s)) selected) \<longrightarrow>
      distinct (map (\<lambda>s. (Host s, Port s)) (fillPass high selected)))
   \<and> distinct (map (\<lambda>s. (Host s, Port s)) (selectFrom speedtestDownloadMbps serversWithBandwidth))"
  by (simp add: distinct_diversityPass distinct_fillPass distinct_selectServers selectFrom_def)

theorem selection_distinct_witness:
  "distinct (map (\<lambda>s. (Host s, Port s)) (selectedServers (firstPick sampleScored)))
   \<and> distinct (map (\<lambda>s. (Host s, Port s)) (selectedServers (diversityPass sampleScored (firstPick sampleScored))))
   \<and> distinct (map (\<lambda>s. (Host s, Port s)) (take 1 sampleScored))
   \<and> distinct (map (\<lambda>s. (Host s, Port s)) (fillPass sampleScored (take 1 sampleScored)))
   \<and> map (\<lambda>s. (Host s, Port s)) (selectFrom 0 sampleScored) = [(''a.example'', 5201), (''b.example'', 5201)]"
  using selection_distinct [where sel = "firstPick sampleScored" and high = sampleScored
      and selected = "take 1 sampleScored" and speedtestDownloadMbps = 0
      and serversWithBandwidth = sampleScored]
  by (simp add: sampleScored_def scoreServers_def scoreServer_def sampleServer_def
        parseBandwidthGbps_def parseDigits_samples Let_def selectFrom_def highBandwidthServers_def
        estimatedUserBandwidth_def selectServers_def firstPick_def alreadySelected_def locationOf_def)


lemma length_selectServers: "length (selectServers high) \<le> 5"
  by (simp add: selectServers_def Let_def)

text \<open>
  C8. Server selection returns at most five servers for every scored list, and it returns
  the empty list (a value, not an error) for the empty list; the run then ends with the
  empty list of results.
\<close>

theorem selection_bounded:
  "length (selectFrom speedtestDownloadMbps serversWithBandwidth) \<le> 5
   \<and> selectFrom speedtestDownloadMbps [] = []
   \<and> aggregate (runTests envs (map toServer (selectFrom speedtestDownloadMbps []))) = []"
  by (simp add: selectFrom_def length_selectServers highBandwidthServers_def selectServers_def
        firstPick_def Let_def runTests_def aggregate_def sortSlice_def assignRanks_def)

subsection \<open>The test of one server\<close>

lemma finish_fields:
  "resHost (finish r) = resHost r" "resPort (finish r) = resPort r"
  "DownloadMbps (finish r) = DownloadMbps r" "UploadMbps (finish r) = UploadMbps r"
  by (simp_all add: finish_def)

lemma finish_completed:
  "\<not> TestCompleted r \<Longrightarrow>
   TestCompleted (finish r) \<longleftrightarrow> DownloadMbps r > 0 \<and> UploadMbps r > 0"
  by (simp add: finish_def)

lemma uploadTest_fields:
  "resHost (fst (uploadTest env issued server parts r)) = resHost r
   \<and> resPort (fst (uploadTest env issued server parts r)) = resPort r
   \<and> DownloadMbps (fst (uploadTest env issued server parts r)) = DownloadMbps r"
  by (simp add: uploadTest_def runCommand_def finish_fields
        split: command_result.split iperf_output.split option.split)

lemma uploadTest_completed:
  assumes "\<not> TestCompleted r" and "UploadMbps r = - 1"
  shows "TestCompleted (fst (uploadTest env issued server parts r)) \<longleftrightarrow>
         DownloadMbps (fst (uploadTest env issued server parts r)) > 0
         \<and> UploadMbps (fst (uploadTest env issued server parts r)) > 0"
  using assms
  by (simp add: uploadTest_def runCommand_def finish_fields finish_completed
        split: command_result.split iperf_output.split option.split)

lemma uploadTest_issued:
  "\<exists>ups. snd (uploadTest env issued server parts r) = issued @ ups
         \<and> set ups \<subseteq> {uploadArgs parts, uploadRetryArgs server}"
  by (auto simp: uploadTest_def runCommand_def
        split: command_result.split iperf_output.split option.split)

lemma netblastTask_fields:
  "resHost (fst (netblastTask env server rank)) = Host server
   \<and> resPort (fst (netblastTask env server rank)) = Port server"
  by (simp add: netblastTask_def runCommand_def finish_fields uploadTest_fields Let_def
        split: command_result.split iperf_output.split option.split)

lemma netblastTask_completed:
  "TestCompleted (fst (netblastTask env server rank)) \<longleftrightarrow>
     DownloadMbps (fst (netblastTask env server rank)) > 0
     \<and> UploadMbps (fst (netblastTask env server rank)) > 0"
  by (simp add: netblastTask_def runCommand_def finish_fields finish_completed
        uploadTest_completed Let_def
        split: command_result.split iperf_output.split option.split)

lemma netblastTask_all_failed:
  assumes "\<forall>n. env n = Failed"
  shows "DownloadMbps (fst (netblastTask env server rank)) = - 1
         \<and> UploadMbps (fst (netblastTask env server rank)) = - 1
         \<and> \<not> TestCompleted (fst (netblastTask env server rank))"
  using assms by (simp add: netblastTask_def runCommand_def Let_def)

lemma nth_runTests:
  "i < length servers \<Longrightarrow>
   runTests envs servers ! i = fst (netblastTask (envs i) (servers ! i) (int i + 1))"
  by (simp add: runTests_def nth_enumerate_eq)

text \<open>
  C5. One result is produced for each selected server, whatever the commands of any task
  do (the functions are total: no outcome of a command is a program error). The result of
  the \<open>i\<close>-th server carries its host and port; \<open>TestCompleted\<close> holds if and only if both
  \<open>DownloadMbps\<close> and \<open>UploadMbps\<close> are positive; and when every command of the task
  fails, the result has \<open>DownloadMbps = UploadMbps = -1\<close> and \<open>TestCompleted = False\<close>.
\<close>

theorem task_results:
  "length (runTests envs servers) = length servers
   \<and> (\<forall>i < length servers.
        resHost (runTests envs servers ! i) = Host (servers ! i)
        \<and> resPort (runTests envs servers ! i) = Port (servers ! i)
        \<and> (TestCompleted (runTests envs servers ! i) \<longleftrightarrow>
             DownloadMbps (runTests envs servers ! i) > 0
             \<and> UploadMbps (runTests envs servers ! i) > 0)
        \<and> ((\<forall>n. envs i n = Failed) \<longrightarrow>
             DownloadMbps (runTests envs servers ! i) = - 1
             \<and> UploadMbps (runTests envs servers ! i) = - 1
             \<and> \<not> TestCompleted (runTests envs servers ! i)))"
proof (intro conjI allI impI)
  show "length (runTests envs servers) = length servers"
    by (simp add: runTests_def)
next
  fix i assume "i < length servers"
  then show "resHost (runTests envs servers ! i) = Host (servers ! i)"
    by (simp add: nth_runTests netblastTask_fields)
next
  fix i assume "i < length servers"
  then show "resPort (runTests envs servers ! i) = Port (servers ! i)"
    by (simp add: nth_runTests netblastTask_fields)
next
  fix i assume "i < length servers"
  then show "TestCompleted (runTests envs servers ! i) \<longleftrightarrow>
             DownloadMbps (runTests envs servers ! i) > 0
             \<and> UploadMbps (runTests envs servers ! i) > 0"
    by (simp only: nth_runTests netblastTask_completed)
next
  fix i assume "i < length servers" and "\<forall>n. envs i n = Failed"
  then show "DownloadMbps (runTests envs servers ! i) = - 1"
    and "UploadMbps (runTests envs servers ! i) = - 1"
    and "\<not> TestCompleted (runTests envs servers ! i)"
    by (simp_all add: nth_runTests netblastTask_all_failed)
qed


theorem task_results_witness:
  "(1::nat) < length sampleServers \<and> (0::nat) < length sampleServers
   \<and> (\<forall>n. sampleEnvs 0 n = Failed)
   \<and> length (runTests sampleEnvs sampleServers) = 2
   \<and> DownloadMbps (runTests sampleEnvs sampleServers ! 0) = - 1
   \<and> UploadMbps (runTests sampleEnvs sampleServers ! 0) = - 1
   \<and> \<not> TestCompleted (runTests sampleEnvs sampleServers ! 0)
   \<and> resHost (runTests sampleEnvs sampleServers ! 1) = ''b.example''
   \<and> DownloadMbps (runTests sampleEnvs sampleServers ! 1) = 940
   \<and> UploadMbps (runTests sampleEnvs sampleServers ! 1) = 880
   \<and> TestCompleted (runTests sampleEnvs sampleServers ! 1)"
  using task_results [of sampleEnvs sampleServers]
  by (simp add: sampleServers_def sampleEnvs_def sampleServer_def runTests_def enumerate_eq_zip
        netblastTask_def uploadTest_def runCommand_def finish_def Let_def)

lemma Sprintf_d_samples: "Sprintf_d 5201 = ''5201''" "Sprintf_d 5202 = ''5202''"
  by (simp_all add: Sprintf_d_def decimal.simps)

lemma retry_differs:
  "downloadRetryArgs server \<noteq> downloadArgs parts"
  "downloadRetryArgs server \<noteq> uploadArgs parts"
  "downloadRetryArgs server \<noteq> uploadRetryArgs server"
  by (simp_all add: downloadRetryArgs_def downloadArgs_def uploadArgs_def uploadRetryArgs_def)

lemma netblastTask_issued:
  assumes "3 \<le> length (Split (Command server) CHR '' '')"
  shows "\<exists>ups. snd (netblastTask env server rank) =
           (if env 0 = Failed
            then [downloadArgs (Split (Command server) CHR '' ''), downloadRetryArgs server]
            else [downloadArgs (Split (Command server) CHR '' '')]) @ ups
         \<and> set ups \<subseteq> {uploadArgs (Split (Command server) CHR '' ''), uploadRetryArgs server}"
proof -
  let ?parts = "Split (Command server) CHR '' ''"
  let ?I = "if env 0 = Failed then [downloadArgs ?parts, downloadRetryArgs server]
            else [downloadArgs ?parts]"
  have "snd (netblastTask env server rank) = ?I
        \<or> (\<exists>r. snd (netblastTask env server rank) = snd (uploadTest env ?I server ?parts r))"
    using assms
    by (auto simp: netblastTask_def runCommand_def Let_def
          split: command_result.split iperf_output.split option.split)
  then show ?thesis
  proof
    assume "snd (netblastTask env server rank) = ?I"
    then show ?thesis by simp
  next
    assume "\<exists>r. snd (netblastTask env server rank) = snd (uploadTest env ?I server ?parts r)"
    then obtain r where "snd (netblastTask env server rank) = snd (uploadTest env ?I server ?parts r)" ..
    with uploadTest_issued [of env ?I server ?parts r] show ?thesis by auto
  qed
qed

lemma netblastTask_retry_once:
  assumes "3 \<le> length (Split (Command server) CHR '' '')"
  shows "(env 0 = Failed \<longrightarrow>
            take 2 (snd (netblastTask env server rank)) =
              [[''timeout'', ''15''] @ Split (Command server) CHR '' '' @ [''-t'', ''5'', ''-J''],
               [''timeout'', ''10'', ''iperf3'', ''-c'', Host server, ''-p'',
                Sprintf_d (Port server), ''-t'', ''3'', ''-J'']]
            \<and> count_list (snd (netblastTask env server rank))
                  [''timeout'', ''10'', ''iperf3'', ''-c'', Host server, ''-p'',
                   Sprintf_d (Port server), ''-t'', ''3'', ''-J''] = 1)
       \<and> (env 0 \<noteq> Failed \<longrightarrow>
            take 1 (snd (netblastTask env server rank)) =
              [[''timeout'', ''15''] @ Split (Command server) CHR '' '' @ [''-t'', ''5'', ''-J'']]
            \<and> [''timeout'', ''10'', ''iperf3'', ''-c'', Host server, ''-p'',
                Sprintf_d (Port server), ''-t'', ''3'', ''-J'']
                  \<notin> set (snd (netblastTask env server rank)))"
proof -
  let ?parts = "Split (Command server) CHR '' ''"
  obtain ups where issued: "snd (netblastTask env server rank) =
           (if env 0 = Failed then [downloadArgs ?parts, downloadRetryArgs server]
            else [downloadArgs ?parts]) @ ups"
    and ups: "set ups \<subseteq> {uploadArgs ?parts, uploadRetryArgs server}"
    using netblastTask_issued [OF assms] by blast
  have fresh: "downloadRetryArgs server \<notin> set ups"
    using ups retry_differs(2,3) by blast
  then have none: "count_list ups (downloadRetryArgs server) = 0"
    by (simp add: count_list_0_iff)
  have first: "downloadArgs ?parts = [''timeout'', ''15''] @ ?parts @ [''-t'', ''5'', ''-J'']"
    by (simp add: downloadArgs_def)
  have retry: "downloadRetryArgs server = [''timeout'', ''10'', ''iperf3'', ''-c'', Host server, ''-p'',
                Sprintf_d (Port server), ''-t'', ''3'', ''-J'']"
    by (simp add: downloadRetryArgs_def)
  have differs: "downloadArgs ?parts \<noteq> downloadRetryArgs server"
    using retry_differs(1) [of server ?parts] by simp
  show ?thesis
    unfolding first [symmetric] retry [symmetric]
    using issued fresh none differs by auto
qed

lemma netblastTask_commands:
  assumes "3 \<le> length (Split (Command server) CHR '' '')"
  shows "snd (netblastTask env server rank) =
     (if env 0 = Failed
      then [[''timeout'', ''15''] @ Split (Command server) CHR '' '' @ [''-t'', ''5'', ''-J''],
            [''timeout'', ''10'', ''iperf3'', ''-c'', Host server, ''-p'',
             Sprintf_d (Port server), ''-t'', ''3'', ''-J'']]
      else [[''timeout'', ''15''] @ Split (Command server) CHR '' '' @ [''-t'', ''5'', ''-J'']])
     @ (case (if env 0 = Failed then env 1 else env 0) of
          Failed \<Rightarrow> []
        | Output Malformed \<Rightarrow> []
        | Output (Report received sent) \<Rightarrow>
            (case received of
               None \<Rightarrow> []
             | Some bitsPerSecond \<Rightarrow>
                 if bitsPerSecond / 1000000 > 0 \<and> Contains (Options server) ''-R''
                 then [[''timeout'', ''15''] @ Split (Command server) CHR '' ''
                         @ [''-t'', ''5'', ''-R'', ''-J'']]
                      @ (if env (if env 0 = Failed then 2 else 1) = Failed
                         then [[''timeout'', ''10'', ''iperf3'', ''-c'', Host server, ''-p'',
                                Sprintf_d (Port server), ''-t'', ''3'', ''-R'', ''-J'']]
                         else [])
                 else []))"
  using assms
  by (simp add: netblastTask_def uploadTest_def runCommand_def Let_def
        downloadArgs_def downloadRetryArgs_def uploadArgs_def uploadRetryArgs_def
        numeral_2_eq_2
        split: command_result.split iperf_output.split option.split)

text \<open>
  C6, as the code has it. For a server whose command has at least three parts, the
  commands a task runs are exactly these, in this order. First the download command. If
  it fails as a process, one retry command, with a 10 second timeout, a 3 second test, no
  option for parallel streams, and \<^verbatim>\<open>-p\<close> with the \<open>Port\<close> field of the server; no
  other download command follows, whatever the retry returns. If the first command does
  not fail as a process, no retry: on malformed output the task stops after that one
  command. After a download that measured a positive speed on a server whose options
  contain \<^verbatim>\<open>-R\<close>, the upload command and, if that fails as a process, its one retry.
  So the retry command is run once when the first command fails as a process, and never
  otherwise.
\<close>

theorem download_retry:
  assumes "3 \<le> length (Split (Command server) CHR '' '')"
  shows "snd (netblastTask env server rank) =
     (if env 0 = Failed
      then [[''timeout'', ''15''] @ Split (Command server) CHR '' '' @ [''-t'', ''5'', ''-J''],
            [''timeout'', ''10'', ''iperf3'', ''-c'', Host server, ''-p'',
             Sprintf_d (Port server), ''-t'', ''3'', ''-J'']]
      else [[''timeout'', ''15''] @ Split (Command server) CHR '' '' @ [''-t'', ''5'', ''-J'']])
     @ (case (if env 0 = Failed then env 1 else env 0) of
          Failed \<Rightarrow> []
        | Output Malformed \<Rightarrow> []
        | Output (Report received sent) \<Rightarrow>
            (case received of
               None \<Rightarrow> []
             | Some bitsPerSecond \<Rightarrow>
                 if bitsPerSecond / 1000000 > 0 \<and> Contains (Options server) ''-R''
                 then [[''timeout'', ''15''] @ Split (Command server) CHR '' ''
                         @ [''-t'', ''5'', ''-R'', ''-J'']]
                      @ (if env (if env 0 = Failed then 2 else 1) = Failed
                         then [[''timeout'', ''10'', ''iperf3'', ''-c'', Host server, ''-p'',
                                Sprintf_d (Port server), ''-t'', ''3'', ''-R'', ''-J'']]
                         else [])
                 else []))
   \<and> ((env 0 = Failed \<longrightarrow>
            take 2 (snd (netblastTask env server rank)) =
              [[''timeout'', ''15''] @ Split (Command server) CHR '' '' @ [''-t'', ''5'', ''-J''],
               [''timeout'', ''10'', ''iperf3'', ''-c'', Host server, ''-p'',
                Sprintf_d (Port server), ''-t'', ''3'', ''-J'']]
            \<and> count_list (snd (netblastTask env server rank))
                  [''timeout'', ''10'', ''iperf3'', ''-c'', Host server, ''-p'',
                   Sprintf_d (Port server), ''-t'', ''3'', ''-J''] = 1)
       \<and> (env 0 \<noteq> Failed \<longrightarrow>
            take 1 (snd (netblastTask env server rank)) =
              [[''timeout'', ''15''] @ Split (Command server) CHR '' '' @ [''-t'', ''5'', ''-J'']]
            \<and> [''timeout'', ''10'', ''iperf3'', ''-c'', Host server, ''-p'',
                Sprintf_d (Port server), ''-t'', ''3'', ''-J'']
                  \<notin> set (snd (netblastTask env server rank))))"
  using netblastTask_commands [OF assms] netblastTask_retry_once [OF assms]
  by (rule conjI)

theorem download_retry_witness:
  "3 \<le> length (Split (Command (sampleServer ''a.example'' 5201 ''P1'' ''40'')) CHR '' '')
   \<and> (\<lambda>n. Failed) (0::nat) = Failed
   \<and> snd (netblastTask (\<lambda>n. Failed) (sampleServer ''a.example'' 5201 ''P1'' ''40'') 1) =
       [[''timeout'', ''15'', ''iperf3'', ''-c'', ''a.example'', ''-t'', ''5'', ''-J''],
        [''timeout'', ''10'', ''iperf3'', ''-c'', ''a.example'', ''-p'', ''5201'', ''-t'', ''3'', ''-J'']]
   \<and> sampleEnvRetry 0 = Failed \<and> sampleEnvRetry 1 \<noteq> Failed \<and> sampleEnvRetry 2 \<noteq> Failed
   \<and> snd (netblastTask sampleEnvRetry (sampleServer ''a.example'' 5201 ''P1'' ''40'') 1) =
       [[''timeout'', ''15'', ''iperf3'', ''-c'', ''a.example'', ''-t'', ''5'', ''-J''],
        [''timeout'', ''10'', ''iperf3'', ''-c'', ''a.example'', ''-p'', ''5201'', ''-t'', ''3'', ''-J''],
        [''timeout'', ''15'', ''iperf3'', ''-c'', ''a.example'', ''-t'', ''5'', ''-R'', ''-J'']]
   \<and> count_list (snd (netblastTask sampleEnvRetry (sampleServer ''a.example'' 5201 ''P1'' ''40'') 1))
        [''timeout'', ''10'', ''iperf3'', ''-c'', ''a.example'', ''-p'', ''5201'', ''-t'', ''3'', ''-J''] = 1
   \<and> sampleEnvs 1 0 \<noteq> Failed
   \<and> snd (netblastTask (sampleEnvs 1) (sampleServer ''a.example'' 5201 ''P1'' ''40'') 1) =
       [[''timeout'', ''15'', ''iperf3'', ''-c'', ''a.example'', ''-t'', ''5'', ''-J''],
        [''timeout'', ''15'', ''iperf3'', ''-c'', ''a.example'', ''-t'', ''5'', ''-R'', ''-J'']]
   \<and> [''timeout'', ''10'', ''iperf3'', ''-c'', ''a.example'', ''-p'', ''5201'', ''-t'', ''3'', ''-J'']
        \<notin> set (snd (netblastTask (sampleEnvs 1) (sampleServer ''a.example'' 5201 ''P1'' ''40'') 1))
   \<and> snd (netblastTask (\<lambda>n. Output Malformed) (sampleServer ''a.example'' 5201 ''P1'' ''40'') 1) =
       [[''timeout'', ''15'', ''iperf3'', ''-c'', ''a.example'', ''-t'', ''5'', ''-J'']]"
proof -
  have parts: "3 \<le> length (Split (Command (sampleServer ''a.example'' 5201 ''P1'' ''40'')) CHR '' '')"
    by (simp add: sampleServer_def)
  show ?thesis
    using parts download_retry [OF parts, of "\<lambda>n. Failed" 1]
      download_retry [OF parts, of sampleEnvRetry 1]
      download_retry [OF parts, of "sampleEnvs 1" 1]
      download_retry [OF parts, of "\<lambda>n. Output Malformed" 1]
    by (simp add: sampleServer_def sampleEnvs_def sampleEnvRetry_def Sprintf_d_samples)
qed

text \<open>
  C6 as stated fails: a malformed response to the first download command is not retried
  (one command is run in all), and the retry after a process failure goes to the port of
  the server, here 5202, not to the default port.
\<close>

theorem download_retry_counterexample:
  "snd (netblastTask (\<lambda>n. Output Malformed) (sampleServer ''a.example'' 5201 ''P1'' ''40'') 1) =
     [[''timeout'', ''15'', ''iperf3'', ''-c'', ''a.example'', ''-t'', ''5'', ''-J'']]
   \<and> snd (netblastTask (\<lambda>n. Failed) sampleServerPort 1) =
     [[''timeout'', ''15'', ''iperf3'', ''-c'', ''b.example'', ''-p'', ''5202'', ''-t'', ''5'', ''-J''],
      [''timeout'', ''10'', ''iperf3'', ''-c'', ''b.example'', ''-p'', ''5202'', ''-t'', ''3'', ''-J'']]"
  by (simp add: sampleServer_def sampleServerPort_def Sprintf_d_samples netblastTask_def
        runCommand_def downloadArgs_def downloadRetryArgs_def Let_def)

subsection \<open>Self location\<close>

text \<open>
  C1 fails on the code: a response that is valid JSON but has no \<open>loc\<close> and no
  \<open>country\<close>, or a \<open>loc\<close> with a latitude only, is not an error. The locate step returns
  the location with \<open>selfLat = selfLon = 0\<close> and the run goes on to distance scoring
  from the point (0, 0).
\<close>

theorem locate_missing_fields:
  "locateSelf ParseFloat
     (Unmarshalled \<lparr>IP = ''203.0.113.7'', selfCity = '''', selfRegion = '''', selfCountry = '''',
                    Loc = '''', Timezone = ''''\<rparr>)
   = Inr (\<lparr>IP = ''203.0.113.7'', selfCity = '''', selfRegion = '''', selfCountry = '''',
            Loc = '''', Timezone = ''''\<rparr>, 0, 0)
   \<and> locateSelf ParseFloat
     (Unmarshalled \<lparr>IP = ''203.0.113.7'', selfCity = ''Paris'', selfRegion = '''', selfCountry = '''',
                    Loc = ''48.8566'', Timezone = ''''\<rparr>)
   = Inr (\<lparr>IP = ''203.0.113.7'', selfCity = ''Paris'', selfRegion = '''', selfCountry = '''',
            Loc = ''48.8566'', Timezone = ''''\<rparr>, 0, 0)"
  by (simp add: locateSelf_def Let_def)

subsection \<open>Distance\<close>

text \<open>
  In exact arithmetic the argument of each square root lies between 0 and 1 for all
  inputs and the distance is never negative, so the conversion to \<^verbatim>\<open>int\<close> is the floor
  of the Haversine distance. In \<^verbatim>\<open>float64\<close> the term \<open>a\<close> can exceed 1 by a rounding
  error between nearly antipodal points, where \<^verbatim>\<open>math.Sqrt(1 - a)\<close> is not a number; and
  a distance within a rounding error of an integer can convert to either neighbour. The
  model of reals does not follow the code there; the statements below on concrete inputs
  stay away from both cases.
\<close>

lemma haversine_term_bounds:
  fixes p q v :: real
  shows "0 \<le> sin ((q - p) / 2) * sin ((q - p) / 2) + cos p * cos q * sin v * sin v"
    and "sin ((q - p) / 2) * sin ((q - p) / 2) + cos p * cos q * sin v * sin v \<le> 1"
proof -
  define C where "C = cos (q - p)"
  define D where "D = cos (p + q)"
  define s where "s = sin v * sin v"
  have s0: "0 \<le> s" by (simp add: s_def)
  have "s = (sin v)\<^sup>2" by (simp add: s_def power2_eq_square)
  then have s1: "s \<le> 1" by (simp add: abs_square_le_1 abs_sin_le_one)
  have C: "- 1 \<le> C" "C \<le> 1" by (simp_all add: C_def)
  have D: "- 1 \<le> D" "D \<le> 1" by (simp_all add: D_def)
  have ss: "sin ((q - p) / 2) * sin ((q - p) / 2) = (1 - C) / 2"
    by (simp add: sin_times_sin C_def)
  have "cos (p - q) = cos (q - p)" by (metis cos_minus minus_diff_eq)
  then have cc: "cos p * cos q = (C + D) / 2"
    by (simp add: cos_times_cos C_def D_def)
  have a: "sin ((q - p) / 2) * sin ((q - p) / 2) + cos p * cos q * sin v * sin v
           = (1 - C * (1 - s) + D * s) / 2"
    unfolding ss cc s_def by (simp add: field_simps)
  have c1: "C * (1 - s) \<le> 1 * (1 - s)" using C s1 by (intro mult_right_mono) auto
  have c2: "- 1 * (1 - s) \<le> C * (1 - s)" using C s1 by (intro mult_right_mono) auto
  have d1: "D * s \<le> 1 * s" using D s0 by (intro mult_right_mono) auto
  have d2: "- 1 * s \<le> D * s" using D s0 by (intro mult_right_mono) auto
  show "0 \<le> sin ((q - p) / 2) * sin ((q - p) / 2) + cos p * cos q * sin v * sin v"
    unfolding a using c1 d2 by simp
  show "sin ((q - p) / 2) * sin ((q - p) / 2) + cos p * cos q * sin v * sin v \<le> 1"
    unfolding a using c2 d1 by simp
qed

lemma Atan2_nonneg: "0 \<le> y \<Longrightarrow> 0 \<le> Atan2 y x"
proof -
  assume y: "0 \<le> y"
  have q: "- (pi / 2) < arctan (y / x)" by (rule arctan_lbound)
  have "0 < x \<Longrightarrow> 0 \<le> arctan (y / x)" using y by (simp add: zero_le_arctan_iff)
  moreover have "x < 0 \<Longrightarrow> y / x \<le> 0" using y by (simp add: divide_le_0_iff)
  moreover have "0 \<le> arctan (y / x) + pi" using q pi_gt_zero by linarith
  ultimately show ?thesis using y
    by (auto simp: Atan2_def Let_def not_less)
qed

lemma calculateDistance_floor:
  "calculateDistance lat1 lon1 lat2 lon2 =
     \<lfloor>6371 * (2 * Atan2
        (sqrt (sin ((lat2 * pi / 180 - lat1 * pi / 180) / 2) * sin ((lat2 * pi / 180 - lat1 * pi / 180) / 2)
               + cos (lat1 * pi / 180) * cos (lat2 * pi / 180)
                 * sin ((lon2 * pi / 180 - lon1 * pi / 180) / 2) * sin ((lon2 * pi / 180 - lon1 * pi / 180) / 2)))
        (sqrt (1 - (sin ((lat2 * pi / 180 - lat1 * pi / 180) / 2) * sin ((lat2 * pi / 180 - lat1 * pi / 180) / 2)
               + cos (lat1 * pi / 180) * cos (lat2 * pi / 180)
                 * sin ((lon2 * pi / 180 - lon1 * pi / 180) / 2) * sin ((lon2 * pi / 180 - lon1 * pi / 180) / 2)))))\<rfloor>"
proof -
  let ?a = "sin ((lat2 * pi / 180 - lat1 * pi / 180) / 2) * sin ((lat2 * pi / 180 - lat1 * pi / 180) / 2)
               + cos (lat1 * pi / 180) * cos (lat2 * pi / 180)
                 * sin ((lon2 * pi / 180 - lon1 * pi / 180) / 2) * sin ((lon2 * pi / 180 - lon1 * pi / 180) / 2)"
  have "0 \<le> ?a" by (rule haversine_term_bounds)
  then have "0 \<le> sqrt ?a" by simp
  then have "0 \<le> Atan2 (sqrt ?a) (sqrt (1 - ?a))" by (rule Atan2_nonneg)
  then have "0 \<le> 6371 * (2 * Atan2 (sqrt ?a) (sqrt (1 - ?a)))" by simp
  then show ?thesis
    unfolding calculateDistance_def Let_def toInt_def by (simp only: if_True)
qed

lemma pi_ge_three: "3 \<le> pi"
proof -
  have "sin (pi / 6) \<le> pi / 6" by (rule sin_x_le_x) simp
  then show ?thesis by (simp add: sin_30)
qed

lemma Atan2_sin_cos:
  assumes "0 < x" and "x < pi / 2"
  shows "Atan2 (sin x) (cos x) = x"
proof -
  have s: "0 < sin x" using assms by (intro sin_gt_zero) auto
  have c: "0 < cos x" using assms by (intro cos_gt_zero_pi) auto
  have "arctan (sin x / cos x) = x"
    using assms arctan_tan [of x] by (simp add: tan_def)
  with s c show ?thesis by (simp add: Atan2_def)
qed

lemma haversine_angle:
  assumes "0 < x" and "x < pi / 2"
  shows "2 * Atan2 (sqrt ((sin x)\<^sup>2)) (sqrt (1 - (sin x)\<^sup>2)) = 2 * x"
proof -
  have s: "0 < sin x" using assms by (intro sin_gt_zero) auto
  have c: "0 < cos x" using assms by (intro cos_gt_zero_pi) auto
  have "1 - (sin x)\<^sup>2 = (cos x)\<^sup>2" by (simp add: cos_squared_eq)
  then have "sqrt (1 - (sin x)\<^sup>2) = cos x" using c by simp
  moreover have "sqrt ((sin x)\<^sup>2) = sin x" using s by simp
  ultimately show ?thesis using Atan2_sin_cos [OF assms] by simp
qed

lemma calculateDistance_meridian:
  assumes "0 < (lat1 - lat2) * pi / 360" and "(lat1 - lat2) * pi / 360 < pi / 2"
  shows "calculateDistance lat1 lon lat2 lon = toInt (6371 * ((lat1 - lat2) * pi / 180))"
proof -
  let ?x = "(lat1 - lat2) * pi / 360"
  have half: "(lat2 * pi / 180 - lat1 * pi / 180) / 2 = - ?x" by (simp add: field_simps)
  have a: "sin ((lat2 * pi / 180 - lat1 * pi / 180) / 2) * sin ((lat2 * pi / 180 - lat1 * pi / 180) / 2)
           + cos (lat1 * pi / 180) * cos (lat2 * pi / 180)
             * sin ((lon * pi / 180 - lon * pi / 180) / 2) * sin ((lon * pi / 180 - lon * pi / 180) / 2)
           = (sin ?x)\<^sup>2"
    unfolding half by (simp add: power2_eq_square)
  have "2 * ?x = (lat1 - lat2) * pi / 180" by simp
  with haversine_angle [OF assms]
  have c: "2 * Atan2 (sqrt ((sin ?x)\<^sup>2)) (sqrt (1 - (sin ?x)\<^sup>2)) = (lat1 - lat2) * pi / 180"
    by (simp only:)
  show ?thesis
    unfolding calculateDistance_def Let_def a c by (rule refl)
qed

lemma spec_distanceKm_meridian:
  assumes "0 < (lat1 - lat2) * pi / 360" and "(lat1 - lat2) * pi / 360 < pi / 2"
  shows "spec_distanceKm lat1 lon lat2 lon = round (6371 * ((lat1 - lat2) * pi / 180))"
proof -
  let ?x = "(lat1 - lat2) * pi / 360"
  have half: "(lat2 - lat1) * pi / 180 / 2 = - ?x" by (simp add: field_simps)
  have a: "(sin ((lat2 - lat1) * pi / 180 / 2))\<^sup>2
           + cos (lat1 * pi / 180) * cos (lat2 * pi / 180) * (sin ((lon - lon) * pi / 180 / 2))\<^sup>2
           = (sin ?x)\<^sup>2"
    unfolding half by simp
  have "2 * ?x = (lat1 - lat2) * pi / 180" by simp
  with haversine_angle [OF assms]
  have c: "2 * Atan2 (sqrt ((sin ?x)\<^sup>2)) (sqrt (1 - (sin ?x)\<^sup>2)) = (lat1 - lat2) * pi / 180"
    by (simp only:)
  show ?thesis
    unfolding spec_distanceKm_def Let_def a c by (rule refl)
qed

text \<open>
  C4 fails on the code: \<open>calculateDistance\<close> discards the fraction of the Haversine
  distance instead of rounding it. From (1.3581, 103.8198) to the table's Singapore
  coordinates (1.3521, 103.8198) the distance is about 0.667 km: the code returns 0, the
  nearest integer is 1.
\<close>

theorem distance_truncated:
  "calculateDistance 1.3581 103.8198 1.3521 103.8198 = 0
   \<and> spec_distanceKm 1.3581 103.8198 1.3521 103.8198 = 1"
proof -
  have d: "(1.3581 - 1.3521 :: real) = 6 / 1000" by simp
  have pos: "0 < (1.3581 - 1.3521) * pi / 360" unfolding d by simp
  have small: "(1.3581 - 1.3521) * pi / 360 < pi / 2" unfolding d by simp
  have lo: "637 / 1000 \<le> 6371 * ((1.3581 - 1.3521) * pi / 180)"
    unfolding d using pi_ge_three by simp
  have hi: "6371 * ((1.3581 - 1.3521) * pi / 180) < 85 / 100"
    unfolding d using pi_less_4 by simp
  have "toInt (6371 * ((1.3581 - 1.3521) * pi / 180)) = 0"
    using lo hi by (simp add: toInt_def floor_eq_iff)
  moreover have "round (6371 * ((1.3581 - 1.3521) * pi / 180)) = 1"
    using lo hi by (simp add: round_def floor_eq_iff)
  ultimately show ?thesis
    using calculateDistance_meridian [OF pos small, of "103.8198"]
      spec_distanceKm_meridian [OF pos small, of "103.8198"] by simp
qed

end
